theory Spec2Isabelle
  imports Main
begin

section \<open>Python values and errors\<close>

text \<open>
  A model of the bulletin scraper: the locator of a bulletin (\<open>get_fiscal_year\<close>,
  \<open>get_bulletin_url\<close>), the month range (\<open>generate_month_range\<close>), the text
  normalizer (\<open>_clean_text\<close>, \<open>parse_date\<close>, \<open>normalize_country\<close>,
  \<open>normalize_category\<close>) and the table parser (\<open>parse_bulletin\<close>), each translated
  function by function. Python integers are \<open>int\<close>, a Python \<open>str\<close> is the list of its
  Unicode code points (\<open>u\<close> turns a literal into one), and exceptions are values of
  \<open>error\<close> returned on the left of a sum.
\<close>

type_synonym ustring = "nat list"

definition u :: "string \<Rightarrow> ustring" where
  "u s = map of_char s"

datatype error = IndexError | KeyError | ValueError

text \<open>Python list indexing \<open>xs[i]\<close>: a negative index counts from the end.\<close>

definition py_index :: "'a list \<Rightarrow> int \<Rightarrow> error + 'a" where
  "py_index xs i =
     (if 0 \<le> i \<and> i < int (length xs) then Inr (xs ! nat i)
      else if i < 0 \<and> - int (length xs) \<le> i then Inr (xs ! nat (int (length xs) + i))
      else Inl IndexError)"

text \<open>Decimal rendering of an integer, as an f-string field \<open>{n}\<close> prints it.\<close>

definition digit_char :: "nat \<Rightarrow> nat" where
  "digit_char d = 48 + d"

fun str_nat :: "nat \<Rightarrow> ustring" where
  "str_nat n = (if n < 10 then [digit_char n] else str_nat (n div 10) @ [digit_char (n mod 10)])"

declare str_nat.simps [simp del]

definition str_int :: "int \<Rightarrow> ustring" where
  "str_int i = (if i < 0 then 45 # str_nat (nat (- i)) else str_nat (nat i))"

section \<open>Bulletin locator\<close>

definition BASE_URL :: ustring where
  "BASE_URL = u ''https://travel.state.gov''"

definition MONTH_NAMES :: "ustring list" where
  "MONTH_NAMES = map u
     [''january'', ''february'', ''march'', ''april'', ''may'', ''june'',
      ''july'', ''august'', ''september'', ''october'', ''november'', ''december'']"

definition get_fiscal_year :: "int \<Rightarrow> int \<Rightarrow> int" where
  "get_fiscal_year year month = (if month \<ge> 10 then year + 1 else year)"

definition get_bulletin_url :: "int \<Rightarrow> int \<Rightarrow> error + ustring" where
  "get_bulletin_url year month =
     (let fy = get_fiscal_year year month in
      case py_index MONTH_NAMES (month - 1) of
        Inl e \<Rightarrow> Inl e
      | Inr month_name \<Rightarrow>
          Inr (BASE_URL @ u ''/content/travel/en/legal/visa-law0/visa-bulletin''
               @ u ''/'' @ str_int fy @ u ''/visa-bulletin-for-'' @ month_name
               @ u ''-'' @ str_int year @ u ''.html''))"

section \<open>Month range\<close>

text \<open>
  The generator \<open>generate_month_range\<close> is modelled by the list of the pairs it yields.
  The loop guard is Python's lexicographic tuple comparison
  \<open>(y, m) <= (end_year, end_month)\<close>.
\<close>

function generate_month_range :: "int \<Rightarrow> int \<Rightarrow> int \<Rightarrow> int \<Rightarrow> (int \<times> int) list" where
  "generate_month_range y m end_year end_month =
     (if y < end_year \<or> (y = end_year \<and> m \<le> end_month)
      then (y, m) # (if m + 1 > 12
                     then generate_month_range (y + 1) 1 end_year end_month
                     else generate_month_range y (m + 1) end_year end_month)
      else [])"
  by pat_completeness auto
termination
  by (relation "measure (\<lambda>(y, m, ey, em). nat (13 * (ey - y) + max 0 (12 - m) + 2))") auto

declare generate_month_range.simps [simp del]


section \<open>Text normalizer\<close>

subsection \<open>Unicode data\<close>

text \<open>
  The functions below stand for the Unicode database behind \<open>unicodedata.normalize\<close>,
  \<open>str.upper\<close>, \<open>str.lower\<close>, \<open>str.strip\<close> and the regular expression classes
  \<open>\s\<close>, \<open>\w\<close> and \<open>\d\<close>. The white space table is the complete one. The other tables
  cover the code points U+0000 to U+00FF and the code points their decompositions
  contain; a code point outside the tables is taken to have no decomposition, no case
  mapping and to be neither a word character nor a digit.
\<close>

definition is_space :: "nat \<Rightarrow> bool" where
  "is_space c \<longleftrightarrow>
     (9 \<le> c \<and> c \<le> 13) \<or> (28 \<le> c \<and> c \<le> 32) \<or> c = 133 \<or> c = 160 \<or> c = 5760
     \<or> (8192 \<le> c \<and> c \<le> 8202) \<or> c = 8232 \<or> c = 8233 \<or> c = 8239 \<or> c = 8287
     \<or> c = 12288"

definition is_word :: "nat \<Rightarrow> bool" where
  "is_word c \<longleftrightarrow>
     (48 \<le> c \<and> c \<le> 57) \<or> (65 \<le> c \<and> c \<le> 90) \<or> c = 95 \<or> (97 \<le> c \<and> c \<le> 122)
     \<or> c = 170 \<or> c = 178 \<or> c = 179 \<or> c = 181 \<or> c = 185 \<or> c = 186
     \<or> (188 \<le> c \<and> c \<le> 190) \<or> (192 \<le> c \<and> c \<le> 214) \<or> (216 \<le> c \<and> c \<le> 246)
     \<or> (248 \<le> c \<and> c \<le> 255) \<or> c = 956"

definition is_digit :: "nat \<Rightarrow> bool" where
  "is_digit c \<longleftrightarrow> 48 \<le> c \<and> c \<le> 57"

definition digit_value :: "nat \<Rightarrow> nat" where
  "digit_value c = c - 48"

definition lower_char :: "nat \<Rightarrow> nat" where
  "lower_char c =
     (if (65 \<le> c \<and> c \<le> 90) \<or> (192 \<le> c \<and> c \<le> 214) \<or> (216 \<le> c \<and> c \<le> 222)
      then c + 32 else c)"

definition upper_char :: "nat \<Rightarrow> nat list" where
  "upper_char c =
     (if (97 \<le> c \<and> c \<le> 122) \<or> (224 \<le> c \<and> c \<le> 246) \<or> (248 \<le> c \<and> c \<le> 254)
      then [c - 32]
      else if c = 181 \<or> c = 956 then [924]
      else if c = 223 then [83, 83]
      else if c = 255 then [376]
      else [c])"

text \<open>Compatibility decompositions of the code points below U+0100 that have one.\<close>

definition compat_decomposition :: "(nat \<times> nat list) list" where
  "compat_decomposition =
     [(160, [32]), (168, [32, 776]), (170, [97]), (175, [32, 772]), (178, [50]),
      (179, [51]), (180, [32, 769]), (181, [956]), (184, [32, 807]), (185, [49]),
      (186, [111]), (188, [49, 8260, 52]), (189, [49, 8260, 50]), (190, [51, 8260, 52]),
      (192, [65, 768]), (193, [65, 769]), (194, [65, 770]), (195, [65, 771]),
      (196, [65, 776]), (197, [65, 778]), (199, [67, 807]), (200, [69, 768]),
      (201, [69, 769]), (202, [69, 770]), (203, [69, 776]), (204, [73, 768]),
      (205, [73, 769]), (206, [73, 770]), (207, [73, 776]), (209, [78, 771]),
      (210, [79, 768]), (211, [79, 769]), (212, [79, 770]), (213, [79, 771]),
      (214, [79, 776]), (217, [85, 768]), (218, [85, 769]), (219, [85, 770]),
      (220, [85, 776]), (221, [89, 769]), (224, [97, 768]), (225, [97, 769]),
      (226, [97, 770]), (227, [97, 771]), (228, [97, 776]), (229, [97, 778]),
      (231, [99, 807]), (232, [101, 768]), (233, [101, 769]), (234, [101, 770]),
      (235, [101, 776]), (236, [105, 768]), (237, [105, 769]), (238, [105, 770]),
      (239, [105, 776]), (241, [110, 771]), (242, [111, 768]), (243, [111, 769]),
      (244, [111, 770]), (245, [111, 771]), (246, [111, 776]), (249, [117, 768]),
      (250, [117, 769]), (251, [117, 770]), (252, [117, 776]), (253, [121, 769]),
      (255, [121, 776])]"

definition decompose_char :: "nat \<Rightarrow> nat list" where
  "decompose_char c = (case map_of compat_decomposition c of None \<Rightarrow> [c] | Some d \<Rightarrow> d)"

text \<open>
  \<open>unicodedata.normalize("NFKD", raw)\<close>. Every decomposition in the table is one or more
  starters followed by at most one combining mark, so on text of the table's range the
  canonical reordering of marks changes nothing and the form is the concatenation of the
  decompositions.
\<close>

definition nfkd :: "ustring \<Rightarrow> ustring" where
  "nfkd raw = concat (map decompose_char raw)"

definition py_upper :: "ustring \<Rightarrow> ustring" where
  "py_upper s = concat (map upper_char s)"

definition py_lower :: "ustring \<Rightarrow> ustring" where
  "py_lower s = map lower_char s"

text \<open>\<open>s.strip()\<close>: white space removed at both ends.\<close>

definition py_strip :: "ustring \<Rightarrow> ustring" where
  "py_strip s = rev (dropWhile is_space (rev (dropWhile is_space s)))"

text \<open>The substring test \<open>sub in s\<close>.\<close>

fun py_in :: "ustring \<Rightarrow> ustring \<Rightarrow> bool" where
  "py_in sub [] = (sub = [])"
| "py_in sub (c # cs) = (take (length sub) (c # cs) = sub \<or> py_in sub cs)"

subsection \<open>Regular expression substitutions\<close>

text \<open>\<open>re.sub(r"\s+", " ", s)\<close>: every maximal run of white space becomes one space.\<close>

function collapse_whitespace :: "ustring \<Rightarrow> ustring" where
  "collapse_whitespace [] = []"
| "collapse_whitespace (c # cs) =
     (if is_space c then 32 # collapse_whitespace (dropWhile is_space cs)
      else c # collapse_whitespace cs)"
  by pat_completeness auto
termination
  by (relation "measure length") (auto simp: less_Suc_eq_le length_dropWhile_le)

text \<open>
  \<open>re.sub(r"(\w)-\s*(\w)", r"\1\2", s)\<close>: scanning from the left, a word character, a
  hyphen, any white space and a word character are replaced by the two word characters;
  the scan goes on after the second one. White space is never a word character, so the
  greedy \<open>\s*\<close> cannot match by giving characters back.
\<close>

function dehyphenate :: "ustring \<Rightarrow> ustring" where
  "dehyphenate [] = []"
| "dehyphenate [a] = [a]"
| "dehyphenate (a # b # rest) =
     (if is_word a \<and> b = 45
      then (case dropWhile is_space rest of
              [] \<Rightarrow> a # dehyphenate (b # rest)
            | c # rest' \<Rightarrow>
                if is_word c then a # c # dehyphenate rest'
                else a # dehyphenate (b # rest))
      else a # dehyphenate (b # rest))"
  by pat_completeness auto
termination
proof (relation "measure length")
  fix a b :: nat and rest :: ustring and c :: nat and rest' :: ustring
  assume "dropWhile is_space rest = c # rest'"
  then have "length (c # rest') \<le> length rest"
    by (metis length_dropWhile_le)
  then show "(rest', a # b # rest) \<in> measure length" by simp
qed auto

text \<open>
  \<open>re.sub(r"\*+$", "", s)\<close>: the asterisks at the end of the text are removed; \<open>$\<close> also
  matches before a line feed that ends the text.
\<close>

definition strip_trailing_asterisks :: "ustring \<Rightarrow> ustring" where
  "strip_trailing_asterisks s =
     (if s \<noteq> [] \<and> last s = 10
      then (if butlast s \<noteq> [] \<and> last (butlast s) = 42
            then rev (dropWhile (\<lambda>c. c = 42) (rev (butlast s))) @ [10]
            else s)
      else rev (dropWhile (\<lambda>c. c = 42) (rev s)))"

subsection \<open>Cleaning\<close>

definition clean_text :: "ustring \<Rightarrow> ustring" where
  "clean_text raw =
     (let s = nfkd raw;
          s = collapse_whitespace s;
          s = filter (\<lambda>c. c \<noteq> 173) s
      in py_strip s)"

subsection \<open>Date tokens\<close>

text \<open>
  \<open>datetime.strptime\<close> compiles the format to a regular expression, matched at the start
  of the text without regard to case: the day is the first alternative of
  \<open>3[0-1]|[1-2]\d|0[1-9]|[1-9]| [1-9]\<close> after which the rest of the pattern matches, the
  month one of the twelve English abbreviations, the year two (\<open>%y\<close>) or four (\<open>%Y\<close>)
  digits. It raises \<open>ValueError\<close> when the pattern does not match, when text remains
  after the match, and when the numbers are not a date of the calendar.
\<close>

type_synonym date = "nat \<times> nat \<times> nat"

definition MONTH_ABBRS :: "ustring list" where
  "MONTH_ABBRS = map u
     [''jan'', ''feb'', ''mar'', ''apr'', ''may'', ''jun'',
      ''jul'', ''aug'', ''sep'', ''oct'', ''nov'', ''dec'']"

fun index_of :: "'a \<Rightarrow> 'a list \<Rightarrow> nat option" where
  "index_of x [] = None"
| "index_of x (y # ys) =
     (if x = y then Some 0 else map_option Suc (index_of x ys))"

definition match_day :: "ustring \<Rightarrow> (nat \<times> ustring) list" where
  "match_day s =
     (case s of
        a # b # r \<Rightarrow>
          (if a = 51 \<and> (b = 48 \<or> b = 49) then [(30 + digit_value b, r)] else [])
          @ (if (a = 49 \<or> a = 50) \<and> is_digit b
             then [(10 * digit_value a + digit_value b, r)] else [])
          @ (if a = 48 \<and> 49 \<le> b \<and> b \<le> 57 then [(digit_value b, r)] else [])
      | _ \<Rightarrow> [])
     @ (case s of
          a # r \<Rightarrow> if 49 \<le> a \<and> a \<le> 57 then [(digit_value a, r)] else []
        | [] \<Rightarrow> [])
     @ (case s of
          a # b # r \<Rightarrow> if a = 32 \<and> 49 \<le> b \<and> b \<le> 57 then [(digit_value b, r)] else []
        | _ \<Rightarrow> [])"

definition match_month :: "ustring \<Rightarrow> (nat \<times> ustring) option" where
  "match_month s =
     (case s of
        a # b # c # r \<Rightarrow>
          map_option (\<lambda>i. (i + 1, r)) (index_of (py_lower [a, b, c]) MONTH_ABBRS)
      | _ \<Rightarrow> None)"

definition match_year2 :: "ustring \<Rightarrow> (nat \<times> ustring) option" where
  "match_year2 s =
     (case s of
        a # b # r \<Rightarrow>
          if is_digit a \<and> is_digit b then Some (10 * digit_value a + digit_value b, r)
          else None
      | _ \<Rightarrow> None)"

definition match_year4 :: "ustring \<Rightarrow> (nat \<times> ustring) option" where
  "match_year4 s =
     (case s of
        a # b # c # d # r \<Rightarrow>
          if is_digit a \<and> is_digit b \<and> is_digit c \<and> is_digit d
          then Some (1000 * digit_value a + 100 * digit_value b + 10 * digit_value c
                     + digit_value d, r)
          else None
      | _ \<Rightarrow> None)"

text \<open>
  The day, month, year and remaining text of the first way the pattern matches, trying
  the alternatives for the day in their order.
\<close>

fun match_date ::
  "(ustring \<Rightarrow> (nat \<times> ustring) option) \<Rightarrow> (nat \<times> ustring) list
     \<Rightarrow> (nat \<times> nat \<times> nat \<times> ustring) option" where
  "match_date match_year [] = None"
| "match_date match_year ((d, r) # alternatives) =
     (case match_month r of
        None \<Rightarrow> match_date match_year alternatives
      | Some (m, r') \<Rightarrow>
          (case match_year r' of
             None \<Rightarrow> match_date match_year alternatives
           | Some (y, r'') \<Rightarrow> Some (d, m, y, r'')))"

definition is_leap :: "nat \<Rightarrow> bool" where
  "is_leap y \<longleftrightarrow> y mod 4 = 0 \<and> (y mod 100 \<noteq> 0 \<or> y mod 400 = 0)"

definition days_in_month :: "nat \<Rightarrow> nat \<Rightarrow> nat" where
  "days_in_month y m =
     (if m = 2 then (if is_leap y then 29 else 28)
      else if m = 4 \<or> m = 6 \<or> m = 9 \<or> m = 11 then 30
      else 31)"

text \<open>The constructor \<open>datetime.date(year, month, day)\<close>.\<close>

definition make_date :: "nat \<Rightarrow> nat \<Rightarrow> nat \<Rightarrow> error + date" where
  "make_date y m d =
     (if 1 \<le> y \<and> y \<le> 9999 \<and> 1 \<le> m \<and> m \<le> 12 \<and> 1 \<le> d \<and> d \<le> days_in_month y m
      then Inr (y, m, d) else Inl ValueError)"

text \<open>
  \<open>datetime.strptime(s, "%d%b%y")\<close>: a two-digit year up to 68 is in the century 2000,
  a larger one in the century 1900.
\<close>

definition strptime_dby :: "ustring \<Rightarrow> error + date" where
  "strptime_dby s =
     (case match_date match_year2 (match_day s) of
        None \<Rightarrow> Inl ValueError
      | Some (d, m, yy, rest) \<Rightarrow>
          if rest \<noteq> [] then Inl ValueError
          else make_date (if yy \<le> 68 then yy + 2000 else yy + 1900) m d)"

text \<open>\<open>datetime.strptime(s, "%d%b%Y")\<close>.\<close>

definition strptime_dbY :: "ustring \<Rightarrow> error + date" where
  "strptime_dbY s =
     (case match_date match_year4 (match_day s) of
        None \<Rightarrow> Inl ValueError
      | Some (d, m, y, rest) \<Rightarrow>
          if rest \<noteq> [] then Inl ValueError
          else make_date y m d)"

definition zero_pad :: "nat \<Rightarrow> nat \<Rightarrow> ustring" where
  "zero_pad width n = replicate (width - length (str_nat n)) 48 @ str_nat n"

text \<open>
  \<open>dt.strftime("%Y-%m-%d")\<close>, with the year in four digits (0001 to 9999) as the
  library documents \<open>%Y\<close>.
\<close>

definition strftime_ymd :: "date \<Rightarrow> ustring" where
  "strftime_ymd dt =
     (case dt of (y, m, d) \<Rightarrow> zero_pad 4 y @ [45] @ zero_pad 2 m @ [45] @ zero_pad 2 d)"

text \<open>
  The two \<open>try\<close> blocks of \<open>parse_date\<close> catch \<open>ValueError\<close> only; any other exception
  would leave the function.
\<close>

definition parse_date :: "ustring \<Rightarrow> error + ustring" where
  "parse_date date_str =
     (let s = py_upper (clean_text date_str) in
      if s = u ''C'' \<or> s = u ''CURRENT'' then Inr (u ''C'')
      else if s = u ''U'' \<or> s = u ''UNAVAILABLE'' then Inr (u ''U'')
      else case strptime_dby s of
             Inr dt \<Rightarrow> Inr (strftime_ymd dt)
           | Inl ValueError \<Rightarrow>
               (case strptime_dbY s of
                  Inr dt \<Rightarrow> Inr (strftime_ymd dt)
                | Inl ValueError \<Rightarrow> Inr s
                | Inl e \<Rightarrow> Inl e)
           | Inl e \<Rightarrow> Inl e)"

subsection \<open>Country and category names\<close>

definition normalize_country :: "ustring \<Rightarrow> ustring" where
  "normalize_country raw =
     (let cleaned = clean_text raw;
          dehyphenated = dehyphenate cleaned;
          lowered = py_lower dehyphenated
      in
      if py_in (u ''chargeability'') lowered
         \<or> (py_in (u ''charge'') lowered \<and> py_in (u ''except'') lowered)
      then u ''All Chargeability Areas''
      else if py_in (u ''china'') lowered then u ''China''
      else if py_in (u ''india'') lowered then u ''India''
      else if py_in (u ''mexico'') lowered then u ''Mexico''
      else if py_in (u ''philip'') lowered then u ''Philippines''
      else
        (let abbrev = py_strip (py_upper cleaned);
             abbrev_map = [u ''CH'' \<mapsto> u ''China'', u ''IN'' \<mapsto> u ''India'',
                           u ''ME'' \<mapsto> u ''Mexico'', u ''MX'' \<mapsto> u ''Mexico'',
                           u ''PH'' \<mapsto> u ''Philippines'']
         in case abbrev_map abbrev of
              Some country \<Rightarrow> country
            | None \<Rightarrow> cleaned))"

definition normalize_category :: "ustring \<Rightarrow> ustring \<Rightarrow> ustring" where
  "normalize_category raw visa_type =
     (let cleaned = clean_text raw;
          cleaned = py_strip (strip_trailing_asterisks cleaned);
          dehyphenated = dehyphenate cleaned;
          lowered = py_lower dehyphenated
      in
      if visa_type = u ''family'' then
        (if lowered \<in> set (map u [''f1'', ''1st'', ''1st preference'']) then u ''F1''
         else if lowered \<in> set (map u [''f2a'', ''2a'']) then u ''F2A''
         else if lowered \<in> set (map u [''f2b'', ''2b'']) then u ''F2B''
         else if lowered \<in> set (map u [''f3'', ''3rd'', ''3rd preference'']) then u ''F3''
         else if lowered \<in> set (map u [''f4'', ''4th'', ''4th preference'']) then u ''F4''
         else if length cleaned \<le> 4 then py_upper cleaned
         else cleaned)
      else if lowered \<in> set (map u [''1st'', ''1st preference'']) then u ''EB-1''
      else if lowered \<in> set (map u [''2nd'', ''2nd preference'']) then u ''EB-2''
      else if lowered \<in> set (map u [''3rd'', ''3rd preference'']) then u ''EB-3''
      else if py_in (u ''other worker'') lowered then u ''EB-3 Other Workers''
      else if lowered \<in> set (map u [''4th'', ''4th preference'']) then u ''EB-4''
      else if py_in (u ''religious worker'') lowered
              \<or> (py_in (u ''religious'') lowered \<and> py_in (u ''worker'') lowered)
      then u ''EB-4 Religious Workers''
      else if py_in (u ''5th'') lowered \<or> py_in (u ''fifth'') lowered then
        (if py_in (u ''unreserved'') lowered then u ''EB-5 Unreserved''
         else if py_in (u ''rural'') lowered then u ''EB-5 Rural''
         else if py_in (u ''high unemployment'') lowered then u ''EB-5 High Unemployment''
         else if py_in (u ''infrastructure'') lowered then u ''EB-5 Infrastructure''
         else if py_in (u ''targeted'') lowered \<or> py_in (u ''regional'') lowered
         then u ''EB-5 Targeted''
         else u ''EB-5'')
      else if py_in (u ''targeted'') lowered \<and> py_in (u ''employment'') lowered
      then u ''EB-5 Targeted''
      else if py_in (u ''schedule a'') lowered then u ''Schedule A Workers''
      else if py_in (u ''iraqi'') lowered \<or> py_in (u ''afghani'') lowered
              \<or> py_in (u ''translator'') lowered
      then u ''Iraqi/Afghani Translators''
      else cleaned)"

definition identify_table_by_header :: "ustring \<Rightarrow> ustring option" where
  "identify_table_by_header header_text =
     (let h = py_lower (clean_text header_text) in
      if py_in (u ''family'') h then Some (u ''family'')
      else if py_in (u ''employment'') h then Some (u ''employment'')
      else None)"



section \<open>Bulletin parser\<close>

text \<open>
  The document is taken as the HTML parser presents it to \<open>parse_bulletin\<close>: the list of
  its tables (\<open>soup.find_all("table")\<close>), each table the list of its rows
  (\<open>table.find_all("tr")\<close>), each row the list of the texts of its cells
  (\<open>get_text(strip=True)\<close> of each \<open>th\<close> or \<open>td\<close>).
\<close>

type_synonym row = "ustring list"

type_synonym table = "row list"

record bulletin_record =
  table_type :: ustring
  visa_type :: ustring
  category :: ustring
  country :: ustring
  priority_date :: ustring

record parser_state =
  seen_count :: "ustring \<rightharpoonup> nat"
  records :: "bulletin_record list"

text \<open>
  The loop \<open>for i, cell in enumerate(cells[1:])\<close>, from index \<open>i\<close> on; the result is
  the list of records it appends.
\<close>

fun pair_cells ::
  "ustring \<Rightarrow> ustring \<Rightarrow> ustring \<Rightarrow> ustring list \<Rightarrow> nat \<Rightarrow> ustring list
     \<Rightarrow> error + bulletin_record list" where
  "pair_cells ttype vtype cat countries i [] = Inr []"
| "pair_cells ttype vtype cat countries i (date_text # cells) =
     (if i \<ge> length countries then Inr []
      else if date_text = [] then pair_cells ttype vtype cat countries (i + 1) cells
      else
        case parse_date date_text of
          Inl e \<Rightarrow> Inl e
        | Inr pdate \<Rightarrow>
            (case py_index countries (int i) of
               Inl e \<Rightarrow> Inl e
             | Inr c \<Rightarrow>
                 (case pair_cells ttype vtype cat countries (i + 1) cells of
                    Inl e \<Rightarrow> Inl e
                  | Inr rs \<Rightarrow>
                      Inr (\<lparr>table_type = ttype, visa_type = vtype, category = cat,
                            country = c, priority_date = pdate\<rparr> # rs))))"

text \<open>The loop \<open>for row in rows[1:]\<close>.\<close>

fun parse_rows ::
  "ustring \<Rightarrow> ustring \<Rightarrow> ustring list \<Rightarrow> row list \<Rightarrow> error + bulletin_record list" where
  "parse_rows ttype vtype countries [] = Inr []"
| "parse_rows ttype vtype countries (cells # rows) =
     (if length cells < 2 then parse_rows ttype vtype countries rows
      else
        case py_index cells 0 of
          Inl e \<Rightarrow> Inl e
        | Inr raw_category \<Rightarrow>
            if raw_category = [] then parse_rows ttype vtype countries rows
            else
              (let cat = normalize_category raw_category vtype in
               case pair_cells ttype vtype cat countries 0 (drop 1 cells) of
                 Inl e \<Rightarrow> Inl e
               | Inr rs \<Rightarrow>
                   (case parse_rows ttype vtype countries rows of
                      Inl e \<Rightarrow> Inl e
                    | Inr rs' \<Rightarrow> Inr (rs @ rs'))))"

text \<open>The country list built from the header cells after the first.\<close>

definition table_countries :: "row \<Rightarrow> ustring list" where
  "table_countries header_cells =
     filter (\<lambda>c. c \<noteq> []) (map normalize_country (drop 1 header_cells))"

text \<open>One turn of the loop \<open>for table in tables\<close>.\<close>

definition parse_table :: "parser_state \<Rightarrow> table \<Rightarrow> error + parser_state" where
  "parse_table st rows =
     (if length rows < 2 then Inr st
      else
        case py_index rows 0 of
          Inl e \<Rightarrow> Inl e
        | Inr header_cells \<Rightarrow>
            if header_cells = [] then Inr st
            else
              case py_index header_cells 0 of
                Inl e \<Rightarrow> Inl e
              | Inr first_header \<Rightarrow>
                  (case identify_table_by_header first_header of
                     None \<Rightarrow> Inr st
                   | Some vtype \<Rightarrow>
                       (case seen_count st vtype of
                          None \<Rightarrow> Inl KeyError
                        | Some n \<Rightarrow>
                            (let st = st\<lparr>seen_count := (seen_count st)(vtype \<mapsto> n + 1)\<rparr>;
                                 ttype = (if n + 1 = 1 then u ''final_action''
                                          else u ''filing'');
                                 countries = table_countries header_cells
                             in
                             if countries = [] then Inr st
                             else
                               case parse_rows ttype vtype countries (drop 1 rows) of
                                 Inl e \<Rightarrow> Inl e
                               | Inr rs \<Rightarrow> Inr (st\<lparr>records := records st @ rs\<rparr>)))))"

fun parse_tables :: "parser_state \<Rightarrow> table list \<Rightarrow> error + parser_state" where
  "parse_tables st [] = Inr st"
| "parse_tables st (t # tables) =
     (case parse_table st t of
        Inl e \<Rightarrow> Inl e
      | Inr st' \<Rightarrow> parse_tables st' tables)"

definition initial_state :: parser_state where
  "initial_state =
     \<lparr>seen_count = [u ''family'' \<mapsto> 0, u ''employment'' \<mapsto> 0], records = []\<rparr>"

definition parse_bulletin :: "table list \<Rightarrow> error + bulletin_record list" where
  "parse_bulletin tables =
     (case parse_tables initial_state tables of
        Inl e \<Rightarrow> Inl e
      | Inr st \<Rightarrow> Inr (records st))"

subsection \<open>What a row, a table and a document contribute\<close>

text \<open>
  The functions of this subsection describe the result of \<open>parse_bulletin\<close> without
  the loop state; \<open>parse_bulletin_records\<close> below proves that the loops compute them.
\<close>

definition parse_date_value :: "ustring \<Rightarrow> ustring" where
  "parse_date_value date_text = (case parse_date date_text of Inr pdate \<Rightarrow> pdate | Inl e \<Rightarrow> [])"

text \<open>
  The records of one data row: none for a row of fewer than two cells or with an empty
  first cell, else one for each non-empty cell after the first that has a country at
  the same index.
\<close>

definition row_records :: "ustring \<Rightarrow> ustring \<Rightarrow> ustring list \<Rightarrow> row \<Rightarrow> bulletin_record list" where
  "row_records ttype vtype countries cells =
     (if length cells < 2 \<or> hd cells = [] then []
      else
        map (\<lambda>(c, d). \<lparr>table_type = ttype, visa_type = vtype,
                         category = normalize_category (hd cells) vtype,
                         country = c, priority_date = parse_date_value d\<rparr>)
          (filter (\<lambda>(c, d). d \<noteq> []) (zip countries (tl cells))))"

definition table_records :: "ustring \<Rightarrow> ustring \<Rightarrow> table \<Rightarrow> bulletin_record list" where
  "table_records ttype vtype rows =
     concat (map (row_records ttype vtype (table_countries (hd rows))) (tl rows))"

text \<open>
  The visa type under which a table is counted: none for a table with fewer than two
  rows, with no header cell, or whose first header cell names neither visa type.
\<close>

definition table_visa_type :: "table \<Rightarrow> ustring option" where
  "table_visa_type rows =
     (if length rows < 2 \<or> hd rows = [] then None
      else identify_table_by_header (hd (hd rows)))"

definition matching_tables :: "ustring \<Rightarrow> table list \<Rightarrow> nat" where
  "matching_tables vtype tables = length (filter (\<lambda>t. table_visa_type t = Some vtype) tables)"

text \<open>The records of a list of tables, given how many tables of each visa type came before.\<close>

fun document_records :: "(ustring \<Rightarrow> nat) \<Rightarrow> table list \<Rightarrow> bulletin_record list" where
  "document_records seen [] = []"
| "document_records seen (t # tables) =
     (case table_visa_type t of
        None \<Rightarrow> document_records seen tables
      | Some vtype \<Rightarrow>
          table_records (if seen vtype = 0 then u ''final_action'' else u ''filing'') vtype t
          @ document_records (seen(vtype := seen vtype + 1)) tables)"

text \<open>A record without its table type.\<close>

definition untyped :: "bulletin_record \<Rightarrow> ustring \<times> ustring \<times> ustring \<times> ustring" where
  "untyped r = (visa_type r, category r, country r, priority_date r)"

section \<open>Evaluation rules\<close>

text \<open>Facts used to evaluate the functions on given texts.\<close>

lemma decompose_char_small: "c < 160 \<Longrightarrow> decompose_char c = [c]"
  by (simp add: decompose_char_def compat_decomposition_def)

lemma decompose_char_160: "decompose_char 160 = [32]"
  by (simp add: decompose_char_def compat_decomposition_def)

lemma decompose_char_173: "decompose_char 173 = [173]"
  by (simp add: decompose_char_def compat_decomposition_def)

lemmas unicode_defs =
  is_space_def is_word_def is_digit_def digit_value_def lower_char_def upper_char_def
  decompose_char_small decompose_char_160 decompose_char_173 nfkd_def py_upper_def
  py_lower_def py_strip_def u_def

lemmas strptime_defs =
  MONTH_ABBRS_def match_day_def match_month_def match_year2_def match_year4_def
  is_leap_def days_in_month_def make_date_def strptime_dby_def strptime_dbY_def
  zero_pad_def strftime_ymd_def str_nat.simps digit_char_def

section \<open>Properties of the locator\<close>

text \<open>
  C6. For a calendar month between 1 and 12, \<open>get_fiscal_year\<close> is the year plus one from
  October on and the year itself before, and \<open>get_bulletin_url\<close> returns (without raising)
  the base address followed by that fiscal year, the entry of \<open>MONTH_NAMES\<close> for the
  month (the lowercase full month name) and the calendar year unchanged.
\<close>

theorem get_bulletin_url_locator:
  assumes "1 \<le> month" and "month \<le> 12"
  shows "get_fiscal_year year month = (if month \<ge> 10 then year + 1 else year)
       \<and> get_bulletin_url year month =
           Inr (u ''https://travel.state.gov/content/travel/en/legal/visa-law0/visa-bulletin/''
                @ str_int (get_fiscal_year year month)
                @ u ''/visa-bulletin-for-'' @ MONTH_NAMES ! nat (month - 1)
                @ u ''-'' @ str_int year @ u ''.html'')"
  using assms
  by (simp add: get_bulletin_url_def get_fiscal_year_def py_index_def BASE_URL_def
      MONTH_NAMES_def u_def)

theorem get_bulletin_url_locator_witness:
  "get_fiscal_year 2025 10 = 2026 \<and> get_fiscal_year 2025 9 = 2025
   \<and> get_bulletin_url 2025 10 = Inr (u ''https://travel.state.gov/content/travel/en/legal/visa-law0/visa-bulletin/2026/visa-bulletin-for-october-2025.html'')
   \<and> get_bulletin_url 2025 9 = Inr (u ''https://travel.state.gov/content/travel/en/legal/visa-law0/visa-bulletin/2025/visa-bulletin-for-september-2025.html'')"
  using get_bulletin_url_locator [of 10 2025] get_bulletin_url_locator [of 9 2025]
  by (simp add: MONTH_NAMES_def str_int_def str_nat.simps digit_char_def u_def)

section \<open>Properties of the month range\<close>

text \<open>
  Months are numbered consecutively by \<open>12 * year + month - 1\<close>; the pair of such a
  number \<open>k\<close> is \<open>(k div 12, k mod 12 + 1)\<close>.
\<close>

lemma month_number_div:
  "1 \<le> m \<Longrightarrow> m \<le> 12 \<Longrightarrow> (12 * y + m - 1) div 12 = (y::int)"
  by (simp add: div_pos_pos_trivial flip: add_diff_eq)

lemma month_number_mod:
  "1 \<le> m \<Longrightarrow> m \<le> 12 \<Longrightarrow> (12 * y + m - 1) mod 12 + 1 = (m::int)"
  by (simp add: mod_pos_pos_trivial flip: add_diff_eq)

lemma generate_month_range_upto:
  assumes "1 \<le> m" "m \<le> 12" "1 \<le> em" "em \<le> 12"
  shows "generate_month_range y m ey em =
         map (\<lambda>k. (k div 12, k mod 12 + 1)) [12 * y + m - 1 .. 12 * ey + em - 1]"
  using assms
proof (induction y m ey em rule: generate_month_range.induct)
  case (1 y m ey em)
  let ?i = "12 * y + m - 1" and ?j = "12 * ey + em - 1"
  have "?i div 12 = y" and "?i mod 12 + 1 = m"
    using "1.prems" by (simp_all only: month_number_div month_number_mod)
  then have pair: "(?i div 12, ?i mod 12 + 1) = (y, m)" by simp
  show ?case
  proof (cases "y < ey \<or> (y = ey \<and> m \<le> em)")
    case False
    with "1.prems" have "?j < ?i" by auto
    with False show ?thesis
      by (simp add: generate_month_range.simps [of y m ey em])
  next
    case True
    with "1.prems" have le: "?i \<le> ?j" by auto
    have up: "[?i .. ?j] = ?i # [?i + 1 .. ?j]"
      using le by (simp add: upto_rec1)
    have tl: "map (\<lambda>k. (k div 12, k mod 12 + 1)) [?i .. ?j] =
              (y, m) # map (\<lambda>k. (k div 12, k mod 12 + 1)) [?i + 1 .. ?j]"
      using up pair by simp
    show ?thesis
    proof (cases "m + 1 > 12")
      case wrap: True
      have unfold: "generate_month_range y m ey em = (y, m) # generate_month_range (y + 1) 1 ey em"
        using True wrap by (subst generate_month_range.simps) simp
      have idx: "12 * (y + 1) + 1 - 1 = ?i + 1" using wrap "1.prems" by simp
      have "generate_month_range (y + 1) 1 ey em =
            map (\<lambda>k. (k div 12, k mod 12 + 1)) [12 * (y + 1) + 1 - 1 .. ?j]"
        using "1.IH"(1) True wrap "1.prems" by simp
      with unfold idx tl show ?thesis by simp
    next
      case nowrap: False
      have unfold: "generate_month_range y m ey em = (y, m) # generate_month_range y (m + 1) ey em"
        using True nowrap by (subst generate_month_range.simps) simp
      have idx: "12 * y + (m + 1) - 1 = ?i + 1" by simp
      have "generate_month_range y (m + 1) ey em =
            map (\<lambda>k. (k div 12, k mod 12 + 1)) [12 * y + (m + 1) - 1 .. ?j]"
        using "1.IH"(2) True nowrap "1.prems" by simp
      with unfold idx tl show ?thesis by simp
    qed
  qed
qed

text \<open>
  C5. The generator always stops (the model is a total function returning the finite list
  of yielded pairs). It yields nothing when the start is strictly after the end. For
  calendar months (1 to 12) it yields exactly the months numbered from the start to the
  end, both included, each one calendar month after the one before (December is followed
  by January of the next year); when the start is not after the end the first pair is the
  start and the last pair is the end.
\<close>

theorem generate_month_range_inclusive:
  "(end_year < start_year \<or> (end_year = start_year \<and> end_month < start_month)
      \<longrightarrow> generate_month_range start_year start_month end_year end_month = [])
   \<and> (1 \<le> start_month \<and> start_month \<le> 12 \<and> 1 \<le> end_month \<and> end_month \<le> 12 \<longrightarrow>
        generate_month_range start_year start_month end_year end_month =
          map (\<lambda>k. (k div 12, k mod 12 + 1))
            [12 * start_year + start_month - 1 .. 12 * end_year + end_month - 1]
        \<and> (\<not> (end_year < start_year \<or> (end_year = start_year \<and> end_month < start_month)) \<longrightarrow>
             hd (generate_month_range start_year start_month end_year end_month)
               = (start_year, start_month)
           \<and> last (generate_month_range start_year start_month end_year end_month)
               = (end_year, end_month)))"
proof (intro conjI impI)
  assume "end_year < start_year \<or> (end_year = start_year \<and> end_month < start_month)"
  then show "generate_month_range start_year start_month end_year end_month = []"
    by (subst generate_month_range.simps) auto
next
  assume v: "1 \<le> start_month \<and> start_month \<le> 12 \<and> 1 \<le> end_month \<and> end_month \<le> 12"
  then show "generate_month_range start_year start_month end_year end_month =
          map (\<lambda>k. (k div 12, k mod 12 + 1))
            [12 * start_year + start_month - 1 .. 12 * end_year + end_month - 1]"
    by (simp add: generate_month_range_upto)
next
  assume v: "1 \<le> start_month \<and> start_month \<le> 12 \<and> 1 \<le> end_month \<and> end_month \<le> 12"
    and ne: "\<not> (end_year < start_year \<or> (end_year = start_year \<and> end_month < start_month))"
  then show "hd (generate_month_range start_year start_month end_year end_month)
               = (start_year, start_month)"
    by (subst generate_month_range.simps) auto
next
  assume v: "1 \<le> start_month \<and> start_month \<le> 12 \<and> 1 \<le> end_month \<and> end_month \<le> 12"
    and ne: "\<not> (end_year < start_year \<or> (end_year = start_year \<and> end_month < start_month))"
  let ?i = "12 * start_year + start_month - 1" and ?j = "12 * end_year + end_month - 1"
  from v ne have le: "?i \<le> ?j" by auto
  have "?j div 12 = end_year" and "?j mod 12 + 1 = end_month"
    using v by (simp_all only: month_number_div month_number_mod)
  moreover have "[?i .. ?j] = [?i .. ?j - 1] @ [?j]"
    using le by (simp add: upto_rec2)
  ultimately show "last (generate_month_range start_year start_month end_year end_month)
               = (end_year, end_month)"
    using v by (simp add: generate_month_range_upto)
qed

theorem generate_month_range_inclusive_witness:
  "generate_month_range 2024 11 2025 2 = [(2024, 11), (2024, 12), (2025, 1), (2025, 2)]
   \<and> generate_month_range 2025 3 2025 1 = []
   \<and> hd (generate_month_range 2024 11 2025 2) = (2024, 11)
   \<and> last (generate_month_range 2024 11 2025 2) = (2025, 2)"
  using generate_month_range_inclusive [of 2025 2024 2 11]
    generate_month_range_inclusive [of 2025 2025 1 3]
  by (simp add: upto_rec1)

section \<open>Properties of date tokens\<close>

lemma make_date_error: "make_date y m d = Inl e \<Longrightarrow> e = ValueError"
  by (auto simp: make_date_def split: if_splits)

lemma strptime_dby_error: "strptime_dby s = Inl e \<Longrightarrow> e = ValueError"
  by (auto simp: strptime_dby_def split: option.splits if_splits dest: make_date_error)

lemma strptime_dbY_error: "strptime_dbY s = Inl e \<Longrightarrow> e = ValueError"
  by (auto simp: strptime_dbY_def split: option.splits if_splits dest: make_date_error)












lemma parse_date_eq:
  "parse_date date_str =
     Inr (let s = py_upper (clean_text date_str) in
          if s = u ''C'' \<or> s = u ''CURRENT'' then u ''C''
          else if s = u ''U'' \<or> s = u ''UNAVAILABLE'' then u ''U''
          else case strptime_dby s of
                 Inr dt \<Rightarrow> strftime_ymd dt
               | Inl e \<Rightarrow>
                   (case strptime_dbY s of
                      Inr dt \<Rightarrow> strftime_ymd dt
                    | Inl e' \<Rightarrow> s))"
  by (auto simp: parse_date_def Let_def split: sum.splits error.splits
      dest: strptime_dby_error strptime_dbY_error)



lemma match_day_suffix: "(d, r) \<in> set (match_day s) \<Longrightarrow> \<exists>p. s = p @ r"
proof -
  assume "(d, r) \<in> set (match_day s)"
  then have "s = take 2 s @ r \<or> s = take 1 s @ r"
    by (auto simp: match_day_def split: list.splits if_splits)
  then show ?thesis by blast
qed

lemma match_month_suffix: "match_month r = Some (m, r') \<Longrightarrow> \<exists>p. r = p @ r'"
proof -
  assume "match_month r = Some (m, r')"
  then have "r = take 3 r @ r'"
    by (auto simp: match_month_def split: list.splits)
  then show ?thesis by blast
qed

lemma match_year2_digits:
  "match_year2 r = Some (yy, rest) \<Longrightarrow>
     \<exists>a b. r = a # b # rest \<and> is_digit a \<and> is_digit b \<and> yy = 10 * digit_value a + digit_value b"
  by (auto simp: match_year2_def split: list.splits if_splits)

lemma match_date_Some:
  "match_date match_year alternatives = Some (d, m, y, rest) \<Longrightarrow>
     \<exists>r r'. (d, r) \<in> set alternatives \<and> match_month r = Some (m, r') \<and> match_year r' = Some (y, rest)"
  by (induction match_year alternatives rule: match_date.induct)
     (fastforce split: option.splits)+

lemma strptime_dby_year:
  assumes "strptime_dby s = Inr (y, m, d)"
  shows "\<exists>pre a b. s = pre @ [a, b] \<and> is_digit a \<and> is_digit b
           \<and> y = (let yy = 10 * digit_value a + digit_value b
                  in if 69 \<le> yy then 1900 + yy else 2000 + yy)
           \<and> 1969 \<le> y \<and> y \<le> 2068"
proof -
  from assms obtain d' m' yy where
    md: "match_date match_year2 (match_day s) = Some (d', m', yy, [])"
    and mk: "make_date (if yy \<le> 68 then yy + 2000 else yy + 1900) m' d' = Inr (y, m, d)"
    by (auto simp: strptime_dby_def split: option.splits if_splits)
  from mk have y: "y = (if yy \<le> 68 then yy + 2000 else yy + 1900)"
    by (auto simp: make_date_def split: if_splits)
  from match_date_Some [OF md] obtain r r' where
    r: "(d', r) \<in> set (match_day s)" "match_month r = Some (m', r')"
       "match_year2 r' = Some (yy, [])"
    by blast
  from match_year2_digits [OF r(3)] obtain a b where
    ab: "r' = [a, b]" "is_digit a" "is_digit b" "yy = 10 * digit_value a + digit_value b"
    by blast
  from match_day_suffix [OF r(1)] match_month_suffix [OF r(2)] obtain p q where
    "s = p @ r" "r = q @ r'" by blast
  then have s: "s = (p @ q) @ [a, b]" using ab(1) by simp
  have "yy \<le> 99" using ab by (auto simp: is_digit_def digit_value_def)
  with y ab s show ?thesis
    by (intro exI [of _ "p @ q"] exI [of _ a] exI [of _ b]) (auto simp: Let_def)
qed

lemma sentinel_not_date:
  "strptime_dby (u ''C'') = Inl ValueError" "strptime_dby (u ''CURRENT'') = Inl ValueError"
  "strptime_dby (u ''U'') = Inl ValueError" "strptime_dby (u ''UNAVAILABLE'') = Inl ValueError"
  by (simp_all add: strptime_dby_def match_day_def u_def)

text \<open>
  C10. When the two-digit-year format accepts the cleaned and uppercased text, the text
  ends in two digits \<open>YY\<close>, the year is \<open>1900 + YY\<close> for \<open>YY\<close> from 69 and
  \<open>2000 + YY\<close> up to 68, hence between 1969 and 2068, and \<open>parse_date\<close> returns that
  date.
\<close>

theorem two_digit_year_pivot:
  assumes "strptime_dby (py_upper (clean_text date_str)) = Inr (y, m, d)"
  shows "\<exists>pre a b. py_upper (clean_text date_str) = pre @ [a, b] \<and> is_digit a \<and> is_digit b
           \<and> y = (let yy = 10 * digit_value a + digit_value b
                  in if 69 \<le> yy then 1900 + yy else 2000 + yy)
           \<and> 1969 \<le> y \<and> y \<le> 2068
           \<and> parse_date date_str = Inr (strftime_ymd (y, m, d))"
proof -
  have "parse_date date_str = Inr (strftime_ymd (y, m, d))"
    using assms sentinel_not_date by (auto simp: parse_date_eq Let_def)
  with strptime_dby_year [OF assms] show ?thesis by blast
qed

theorem two_digit_year_pivot_witness:
  "parse_date (u ''01FEB69'') = Inr (u ''1969-02-01'')
   \<and> parse_date (u ''01FEB68'') = Inr (u ''2068-02-01'')"
proof -
  have a: "strptime_dby (py_upper (clean_text (u ''01FEB69''))) = Inr (1969, 2, 1)"
    by (simp add: clean_text_def unicode_defs strptime_defs)
  have b: "strptime_dby (py_upper (clean_text (u ''01FEB68''))) = Inr (2068, 2, 1)"
    by (simp add: clean_text_def unicode_defs strptime_defs)
  have "parse_date (u ''01FEB69'') = Inr (strftime_ymd (1969, 2, 1))"
    using two_digit_year_pivot [OF a] by blast
  moreover have "parse_date (u ''01FEB68'') = Inr (strftime_ymd (2068, 2, 1))"
    using two_digit_year_pivot [OF b] by blast
  ultimately show ?thesis
    by (simp add: strptime_defs u_def)
qed

section \<open>Properties of country names\<close>












section \<open>Properties of cleaning\<close>

text \<open>
  C7. A run of no-break spaces is collapsed to one space. Cleaning is not idempotent:
  soft hyphens are removed after the white space has been collapsed, so the spaces on
  both sides of a soft hyphen stay as two spaces, which a second cleaning collapses.
\<close>

theorem clean_text_soft_hyphen_between_spaces:
  "clean_text (u ''A '' @ [173] @ u '' B'') = u ''A  B''
   \<and> clean_text (clean_text (u ''A '' @ [173] @ u '' B'')) = u ''A B''
   \<and> clean_text [65, 160, 160, 66] = u ''A B''"
  by (simp add: clean_text_def unicode_defs)

section \<open>Properties of category names\<close>








section \<open>The loops of the parser\<close>

text \<open>No step of \<open>parse_bulletin\<close> raises, and its loops compute \<open>document_records\<close>.\<close>

lemma parse_date_Inr: "parse_date d = Inr (parse_date_value d)"
  by (simp add: parse_date_value_def parse_date_eq)

lemma py_index_nat: "i < length xs \<Longrightarrow> py_index xs (int i) = Inr (xs ! i)"
  by (simp add: py_index_def)

lemma pair_cells_zip:
  "pair_cells ttype vtype cat countries i cells =
     Inr (map (\<lambda>(c, d). \<lparr>table_type = ttype, visa_type = vtype, category = cat,
                           country = c, priority_date = parse_date_value d\<rparr>)
            (filter (\<lambda>(c, d). d \<noteq> []) (zip (drop i countries) cells)))"
proof (induction cells arbitrary: i)
  case Nil
  then show ?case by simp
next
  case (Cons d ds)
  show ?case
  proof (cases "i \<ge> length countries")
    case True
    then show ?thesis by simp
  next
    case False
    then have dr: "drop i countries = countries ! i # drop (Suc i) countries"
      by (simp add: Cons_nth_drop_Suc)
    from False have ix: "py_index countries (int i) = Inr (countries ! i)"
      by (simp add: py_index_nat)
    show ?thesis
      using False by (simp add: dr ix Cons.IH parse_date_Inr)
  qed
qed

lemma parse_rows_records:
  "parse_rows ttype vtype countries rows =
     Inr (concat (map (row_records ttype vtype countries) rows))"
proof (induction rows)
  case Nil
  then show ?case by simp
next
  case (Cons cells rows)
  show ?case
  proof (cases "length cells < 2")
    case True
    then show ?thesis by (simp add: Cons.IH row_records_def)
  next
    case False
    then obtain c0 cs where cells: "cells = c0 # cs" by (cases cells) auto
    have ix: "py_index (c0 # cs) 0 = Inr c0" by (simp add: py_index_def)
    show ?thesis
      using False by (simp add: ix cells Cons.IH row_records_def pair_cells_zip Let_def)
  qed
qed


lemma identify_values:
  "identify_table_by_header h = Some vt \<Longrightarrow> vt = u ''family'' \<or> vt = u ''employment''"
  by (auto simp: identify_table_by_header_def Let_def split: if_splits)

lemma parse_table_skip:
  assumes "table_visa_type t = None"
  shows "parse_table st t = Inr st"
proof (cases "length t < 2")
  case True
  then show ?thesis by (simp add: parse_table_def)
next
  case False
  then obtain r0 rs where t: "t = r0 # rs" by (cases t) auto
  have ix: "py_index (r0 # rs) 0 = Inr r0" by (simp add: py_index_def)
  show ?thesis
  proof (cases r0)
    case Nil
    with False t ix show ?thesis by (simp add: parse_table_def)
  next
    case (Cons h hs)
    have ih: "py_index (h # hs) 0 = Inr h" by (simp add: py_index_def)
    from assms False t Cons have "identify_table_by_header h = None"
      by (simp add: table_visa_type_def)
    with False t Cons ix ih show ?thesis by (simp add: parse_table_def)
  qed
qed

lemma table_records_no_countries:
  "table_countries (hd t) = [] \<Longrightarrow> table_records ttype vtype t = []"
  by (auto simp: table_records_def row_records_def)

lemma parse_table_match:
  assumes "table_visa_type t = Some vt" and "seen_count st vt = Some n"
  shows "parse_table st t =
           Inr (st\<lparr>seen_count := (seen_count st)(vt \<mapsto> n + 1),
                   records := records st
                     @ table_records (if n = 0 then u ''final_action'' else u ''filing'') vt t\<rparr>)"
proof -
  from assms(1) have len: "\<not> length t < 2" and hd: "hd t \<noteq> []"
    by (auto simp: table_visa_type_def split: if_splits)
  from len obtain r0 rs where t: "t = r0 # rs" by (cases t) auto
  from hd t obtain h hs where r0: "r0 = h # hs" by (cases r0) auto
  have len': "\<not> length ((h # hs) # rs) < 2" using len t r0 by simp
  have ix: "py_index ((h # hs) # rs) 0 = Inr (h # hs)" by (simp add: py_index_def)
  have ih: "py_index (h # hs) 0 = Inr h" by (simp add: py_index_def)
  from assms(1) len t r0 have id: "identify_table_by_header h = Some vt"
    by (simp add: table_visa_type_def)
  have dr: "drop 1 ((h # hs) # rs) = rs" by simp
  have n1: "(n + 1 = 1) = (n = 0)" by simp
  show ?thesis
  proof (cases "table_countries (h # hs) = []")
    case True
    then have "table_records (if n = 0 then u ''final_action'' else u ''filing'') vt t = []"
      using t r0 by (simp add: table_records_no_countries)
    then show ?thesis
      unfolding t r0 parse_table_def
      by (simp only: len' ix ih id assms(2) True Let_def n1 dr if_False if_True sum.case
          option.case list.simps) (simp add: t r0)
  next
    case False
    have "table_records (if n = 0 then u ''final_action'' else u ''filing'') vt t =
          concat (map (row_records (if n = 0 then u ''final_action'' else u ''filing'') vt
                         (table_countries (h # hs))) rs)"
      using t r0 by (simp add: table_records_def)
    then show ?thesis
      unfolding t r0 parse_table_def
      by (simp only: len' ix ih id assms(2) False Let_def n1 dr if_False if_True sum.case
          option.case list.simps parse_rows_records) (simp add: t r0)
  qed
qed

lemma parse_tables_records:
  assumes "seen_count st (u ''family'') = Some (seen (u ''family''))"
    and "seen_count st (u ''employment'') = Some (seen (u ''employment''))"
  shows "\<exists>st'. parse_tables st ts = Inr st' \<and> records st' = records st @ document_records seen ts"
  using assms
proof (induction ts arbitrary: st seen)
  case Nil
  then show ?case by simp
next
  case (Cons t ts)
  show ?case
  proof (cases "table_visa_type t")
    case None
    with Cons.IH [OF Cons.prems] show ?thesis
      by (simp add: parse_table_skip)
  next
    case (Some vt)
    then have "vt = u ''family'' \<or> vt = u ''employment''"
      by (auto simp: table_visa_type_def split: if_splits dest: identify_values)
    with Cons.prems have sv: "seen_count st vt = Some (seen vt)" by auto
    let ?st = "st\<lparr>seen_count := (seen_count st)(vt \<mapsto> seen vt + 1),
                   records := records st
                     @ table_records (if seen vt = 0 then u ''final_action'' else u ''filing'') vt t\<rparr>"
    have step: "parse_table st t = Inr ?st"
      by (rule parse_table_match [OF Some sv])
    have "seen_count ?st (u ''family'') = Some ((seen(vt := seen vt + 1)) (u ''family''))"
      and "seen_count ?st (u ''employment'') = Some ((seen(vt := seen vt + 1)) (u ''employment''))"
      using Cons.prems by auto
    from Cons.IH [OF this] obtain st' where
      "parse_tables ?st ts = Inr st'"
      "records st' = records ?st @ document_records (seen(vt := seen vt + 1)) ts"
      by blast
    with step Some show ?thesis by simp
  qed
qed

lemma parse_bulletin_records: "parse_bulletin doc = Inr (document_records (\<lambda>v. 0) doc)"
proof -
  have "seen_count initial_state (u ''family'') = Some 0"
    and "seen_count initial_state (u ''employment'') = Some 0"
    by (simp_all add: initial_state_def u_def)
  from parse_tables_records [of initial_state "\<lambda>v. 0", OF this] obtain st' where
    "parse_tables initial_state doc = Inr st'"
    "records st' = records initial_state @ document_records (\<lambda>v. 0) doc"
    by blast
  then show ?thesis by (simp add: parse_bulletin_def initial_state_def)
qed

lemma document_records_append:
  "document_records seen (xs @ ys) =
     document_records seen xs @ document_records (\<lambda>v. seen v + matching_tables v xs) ys"
proof (induction xs arbitrary: seen)
  case Nil
  then show ?case by (simp add: matching_tables_def)
next
  case (Cons t xs)
  show ?case
  proof (cases "table_visa_type t")
    case None
    then have "(\<lambda>v. seen v + matching_tables v (t # xs)) = (\<lambda>v. seen v + matching_tables v xs)"
      by (simp add: matching_tables_def)
    with None Cons.IH [of seen] show ?thesis by simp
  next
    case (Some vt)
    have eq: "(\<lambda>v. (seen(vt := seen vt + 1)) v + matching_tables v xs)
          = (\<lambda>v. seen v + matching_tables v (t # xs))"
      using Some by (auto simp: matching_tables_def fun_eq_iff)
    have "document_records seen ((t # xs) @ ys) =
          table_records (if seen vt = 0 then u ''final_action'' else u ''filing'') vt t
          @ document_records (seen(vt := seen vt + 1)) (xs @ ys)"
      by (simp only: append_Cons document_records.simps Some option.case)
    also have "document_records (seen(vt := seen vt + 1)) (xs @ ys) =
          document_records (seen(vt := seen vt + 1)) xs
          @ document_records (\<lambda>v. seen v + matching_tables v (t # xs)) ys"
      by (simp only: Cons.IH eq)
    finally show ?thesis
      by (simp only: append_assoc document_records.simps Some option.case)
  qed
qed

lemma untyped_row_records:
  "map untyped (row_records ttype vtype countries cells)
   = map untyped (row_records ttype' vtype countries cells)"
  by (simp add: row_records_def untyped_def split_def)

lemma untyped_table_records:
  "map untyped (table_records ttype vtype t) = map untyped (table_records ttype' vtype t)"
  unfolding table_records_def map_concat map_map comp_def
  using untyped_row_records [of ttype vtype _ _ ttype'] by simp

lemma untyped_document_records:
  "map untyped (document_records seen ts) = map untyped (document_records seen' ts)"
proof (induction ts arbitrary: seen seen')
  case Nil
  then show ?case by simp
next
  case (Cons t ts)
  show ?case
  proof (cases "table_visa_type t")
    case None
    with Cons.IH [of seen seen'] show ?thesis by simp
  next
    case (Some vt)
    show ?thesis
      by (simp only: document_records.simps Some option.case map_append
          Cons.IH [of "seen(vt := seen vt + 1)" "seen'(vt := seen' vt + 1)"]
          untyped_table_records [of "if seen vt = 0 then u ''final_action'' else u ''filing''" vt t
            "if seen' vt = 0 then u ''final_action'' else u ''filing''"])
  qed
qed

lemma table_records_fields:
  "r \<in> set (table_records ttype vtype t) \<Longrightarrow> table_type r = ttype \<and> visa_type r = vtype"
  by (auto simp: table_records_def row_records_def split: if_splits)

section \<open>Properties of the parser\<close>

text \<open>
  C1, as the code has it. A table counted under a visa type contributes all the records
  of its rows, in document order after those of the tables before it: with the table
  type \<open>final_action\<close> when no earlier table of the document was counted under that
  visa type, and with the table type \<open>filing\<close> otherwise, be it the second such table
  or a later one.
\<close>

theorem table_type_by_encounter_order:
  assumes "table_visa_type t = Some vtype"
  shows "\<exists>rs_pre rs_post.
           parse_bulletin pre = Inr rs_pre
         \<and> parse_bulletin (pre @ t # post) =
             Inr (rs_pre
                  @ table_records (if matching_tables vtype pre = 0 then u ''final_action''
                                   else u ''filing'') vtype t
                  @ rs_post)
         \<and> (\<forall>r \<in> set (table_records (if matching_tables vtype pre = 0 then u ''final_action''
                                        else u ''filing'') vtype t).
               visa_type r = vtype
             \<and> table_type r = (if matching_tables vtype pre = 0 then u ''final_action''
                                else u ''filing''))"
proof -
  let ?seen = "\<lambda>v. (0::nat) + matching_tables v pre"
  have "document_records (\<lambda>v. 0) (pre @ t # post) =
        document_records (\<lambda>v. 0) pre @ document_records ?seen (t # post)"
    by (rule document_records_append)
  also have "document_records ?seen (t # post) =
        table_records (if matching_tables vtype pre = 0 then u ''final_action''
                       else u ''filing'') vtype t
        @ document_records (?seen(vtype := ?seen vtype + 1)) post"
    using assms by simp
  finally have "parse_bulletin (pre @ t # post) =
      Inr (document_records (\<lambda>v. 0) pre
           @ table_records (if matching_tables vtype pre = 0 then u ''final_action''
                            else u ''filing'') vtype t
           @ document_records (?seen(vtype := ?seen vtype + 1)) post)"
    by (simp only: parse_bulletin_records)
  moreover have "parse_bulletin pre = Inr (document_records (\<lambda>v. 0) pre)"
    by (rule parse_bulletin_records)
  ultimately show ?thesis
    using table_records_fields by blast
qed

theorem table_type_by_encounter_order_witness:
  "\<exists>rs_pre rs_post.
     parse_bulletin [[[u ''Family'', u ''India''], [u ''F1'', u ''C'']],
                     [[u ''Family'', u ''India''], [u ''F1'', u ''C'']],
                     [[u ''Family'', u ''India''], [u ''F1'', u ''C'']]] =
       Inr (rs_pre
            @ [\<lparr>table_type = u ''filing'', visa_type = u ''family'', category = u ''F1'',
                 country = u ''India'', priority_date = u ''C''\<rparr>]
            @ rs_post)"
proof -
  let ?t = "[[u ''Family'', u ''India''], [u ''F1'', u ''C'']]"
  have vt: "table_visa_type ?t = Some (u ''family'')"
    by (simp add: table_visa_type_def identify_table_by_header_def clean_text_def unicode_defs)
  have m: "matching_tables (u ''family'') [?t, ?t] = 2"
    by (simp add: matching_tables_def vt)
  have c: "table_countries [u ''Family'', u ''India''] = [u ''India'']"
    by (simp add: table_countries_def normalize_country_def clean_text_def unicode_defs)
  have n: "normalize_category (u ''F1'') (u ''family'') = u ''F1''"
    by (simp add: normalize_category_def clean_text_def strip_trailing_asterisks_def unicode_defs)
  have d: "parse_date_value (u ''C'') = u ''C''"
    by (simp add: parse_date_value_def parse_date_def clean_text_def unicode_defs)
  have r: "table_records (u ''filing'') (u ''family'') ?t =
          [\<lparr>table_type = u ''filing'', visa_type = u ''family'', category = u ''F1'',
             country = u ''India'', priority_date = u ''C''\<rparr>]"
    by (simp add: table_records_def row_records_def c n d) (simp add: u_def)
  have f: "(if matching_tables (u ''family'') [?t, ?t] = 0 then u ''final_action''
            else u ''filing'') = u ''filing''"
    by (simp add: m)
  from table_type_by_encounter_order [OF vt, of "[?t, ?t]" "[]"] obtain rs_pre rs_post where
    "parse_bulletin ([?t, ?t] @ [?t]) =
       Inr (rs_pre @ table_records (u ''filing'') (u ''family'') ?t @ rs_post)"
    unfolding f by blast
  then have "parse_bulletin [?t, ?t, ?t] =
       Inr (rs_pre
            @ [\<lparr>table_type = u ''filing'', visa_type = u ''family'', category = u ''F1'',
                 country = u ''India'', priority_date = u ''C''\<rparr>]
            @ rs_post)"
    by (simp only: r append_Cons append_Nil)
  then show ?thesis by blast
qed

text \<open>
  A third table of a visa type is not ignored: its records are returned, typed
  \<open>filing\<close>.
\<close>

theorem third_table_counterexample:
  "parse_bulletin [[[u ''Family'', u ''India''], [u ''F1'', u ''C'']],
                   [[u ''Family'', u ''India''], [u ''F1'', u ''C'']],
                   [[u ''Family'', u ''India''], [u ''F1'', u ''C'']]] =
     Inr [\<lparr>table_type = u ''final_action'', visa_type = u ''family'', category = u ''F1'',
            country = u ''India'', priority_date = u ''C''\<rparr>,
          \<lparr>table_type = u ''filing'', visa_type = u ''family'', category = u ''F1'',
            country = u ''India'', priority_date = u ''C''\<rparr>,
          \<lparr>table_type = u ''filing'', visa_type = u ''family'', category = u ''F1'',
            country = u ''India'', priority_date = u ''C''\<rparr>]
   \<and> parse_bulletin [[[u ''Family'', u ''India''], [u ''F1'', u ''C'']],
                     [[u ''Family'', u ''India''], [u ''F1'', u ''C'']],
                     [[u ''Family'', u ''India''], [u ''F1'', u ''C'']]]
     \<noteq> parse_bulletin [[[u ''Family'', u ''India''], [u ''F1'', u ''C'']],
                       [[u ''Family'', u ''India''], [u ''F1'', u ''C'']]]"
proof -
  let ?t = "[[u ''Family'', u ''India''], [u ''F1'', u ''C'']]"
  have vt: "table_visa_type ?t = Some (u ''family'')"
    by (simp add: table_visa_type_def identify_table_by_header_def clean_text_def unicode_defs)
  have c: "table_countries [u ''Family'', u ''India''] = [u ''India'']"
    by (simp add: table_countries_def normalize_country_def clean_text_def unicode_defs)
  have n: "normalize_category (u ''F1'') (u ''family'') = u ''F1''"
    by (simp add: normalize_category_def clean_text_def strip_trailing_asterisks_def unicode_defs)
  have d: "parse_date_value (u ''C'') = u ''C''"
    by (simp add: parse_date_value_def parse_date_def clean_text_def unicode_defs)
  have r: "table_records ttype (u ''family'') ?t =
          [\<lparr>table_type = ttype, visa_type = u ''family'', category = u ''F1'',
             country = u ''India'', priority_date = u ''C''\<rparr>]" for ttype
    by (simp add: table_records_def row_records_def c n d) (simp add: u_def)
  show ?thesis
    by (simp add: parse_bulletin_records vt r)
qed

lemma table_visa_type_None:
  "length t < 2 \<or> hd t = [] \<or> identify_table_by_header (hd (hd t)) = None
     \<Longrightarrow> table_visa_type t = None"
  by (auto simp: table_visa_type_def)

lemma document_records_skip:
  assumes "table_visa_type t = None"
  shows "document_records seen (pre @ t # post) = document_records seen (pre @ post)"
proof -
  show ?thesis
    by (simp only: document_records_append document_records.simps assms option.case)
qed

text \<open>
  C8. \<open>parse_bulletin\<close> returns a record list for every document, the empty list for a
  document without tables. A table with fewer than two rows, with no header cell or with
  a first header cell that names neither visa type changes nothing: the result is that of
  the document without it. A table whose country list is empty contributes no record:
  the records of the tables before it are unchanged and those of the tables after it are
  the same as without it, up to their table type (such a table is still counted when its
  header names a visa type).
\<close>

theorem parse_bulletin_skips_malformed_tables:
  "(\<exists>rs. parse_bulletin doc = Inr rs)
   \<and> parse_bulletin [] = Inr []
   \<and> (length t < 2 \<or> hd t = [] \<or> identify_table_by_header (hd (hd t)) = None
        \<longrightarrow> parse_bulletin (pre @ t # post) = parse_bulletin (pre @ post))
   \<and> (table_countries (hd t) = []
        \<longrightarrow> (\<exists>rs_pre rs_post rs_post'.
               parse_bulletin pre = Inr rs_pre
             \<and> parse_bulletin (pre @ t # post) = Inr (rs_pre @ rs_post)
             \<and> parse_bulletin (pre @ post) = Inr (rs_pre @ rs_post')
             \<and> map untyped rs_post = map untyped rs_post'))"
proof (intro conjI impI)
  show "\<exists>rs. parse_bulletin doc = Inr rs"
    by (simp add: parse_bulletin_records)
  show "parse_bulletin [] = Inr []"
    by (simp add: parse_bulletin_records)
next
  assume "length t < 2 \<or> hd t = [] \<or> identify_table_by_header (hd (hd t)) = None"
  then have "table_visa_type t = None" by (rule table_visa_type_None)
  then show "parse_bulletin (pre @ t # post) = parse_bulletin (pre @ post)"
    by (simp only: parse_bulletin_records document_records_skip)
next
  assume nc: "table_countries (hd t) = []"
  let ?seen = "\<lambda>v. (0::nat) + matching_tables v pre"
  obtain seen' where t: "document_records ?seen (t # post) = document_records seen' post"
  proof (cases "table_visa_type t")
    case None
    then have "document_records ?seen (t # post) = document_records ?seen post" by simp
    then show ?thesis by (rule that)
  next
    case (Some vt)
    then have "document_records ?seen (t # post) =
        document_records (?seen(vt := ?seen vt + 1)) post"
      by (simp add: table_records_no_countries [OF nc])
    then show ?thesis by (rule that)
  qed
  have "parse_bulletin pre = Inr (document_records (\<lambda>v. 0) pre)"
    by (rule parse_bulletin_records)
  moreover have "parse_bulletin (pre @ t # post) =
      Inr (document_records (\<lambda>v. 0) pre @ document_records seen' post)"
    by (simp only: parse_bulletin_records document_records_append t)
  moreover have "parse_bulletin (pre @ post) =
      Inr (document_records (\<lambda>v. 0) pre @ document_records ?seen post)"
    by (simp only: parse_bulletin_records document_records_append)
  moreover have "map untyped (document_records seen' post) = map untyped (document_records ?seen post)"
    by (rule untyped_document_records)
  ultimately show "\<exists>rs_pre rs_post rs_post'.
               parse_bulletin pre = Inr rs_pre
             \<and> parse_bulletin (pre @ t # post) = Inr (rs_pre @ rs_post)
             \<and> parse_bulletin (pre @ post) = Inr (rs_pre @ rs_post')
             \<and> map untyped rs_post = map untyped rs_post'"
    by blast
qed

theorem parse_bulletin_skips_malformed_tables_witness:
  "parse_bulletin [[[u ''Family'', u ''India''], [u ''F1'', u ''C'']],
                   [[u ''Notes'', u ''India''], [u ''F1'', u ''C'']],
                   [[u ''Family'', u ''India''], [u ''F1'', u ''U'']]]
   = parse_bulletin [[[u ''Family'', u ''India''], [u ''F1'', u ''C'']],
                     [[u ''Family'', u ''India''], [u ''F1'', u ''U'']]]
   \<and> parse_bulletin [[[u ''Family'', u ''India'']]] = parse_bulletin []
   \<and> parse_bulletin [] = Inr []
   \<and> (\<exists>rs rs'.
        parse_bulletin [[[u ''Family'', [173]], [u ''F1'', u ''C'']],
                        [[u ''Family'', u ''India''], [u ''F1'', u ''U'']]] = Inr rs
      \<and> parse_bulletin [[[u ''Family'', u ''India''], [u ''F1'', u ''U'']]] = Inr rs'
      \<and> map untyped rs = map untyped rs')"
proof -
  let ?a = "[[u ''Family'', u ''India''], [u ''F1'', u ''C'']]"
  let ?n = "[[u ''Notes'', u ''India''], [u ''F1'', u ''C'']]"
  let ?b = "[[u ''Family'', u ''India''], [u ''F1'', u ''U'']]"
  let ?s = "[[u ''Family'', [173]], [u ''F1'', u ''C'']]"
  have nts: "identify_table_by_header (hd (hd ?n)) = None"
    by (simp add: identify_table_by_header_def clean_text_def unicode_defs)
  have shrt: "length [[u ''Family'', u ''India'']] < 2" by simp
  have emp: "table_countries (hd ?s) = []"
    by (simp add: table_countries_def normalize_country_def clean_text_def unicode_defs)
  have 1: "parse_bulletin ([?a] @ ?n # [?b]) = parse_bulletin ([?a] @ [?b])"
    using parse_bulletin_skips_malformed_tables [of _ ?n "[?a]" "[?b]"] nts by blast
  have 2: "parse_bulletin ([] @ [[u ''Family'', u ''India'']] # []) = parse_bulletin ([] @ [])"
    using parse_bulletin_skips_malformed_tables [of _ "[[u ''Family'', u ''India'']]" "[]" "[]"]
      shrt by blast
  have 3: "parse_bulletin [] = Inr []"
    using parse_bulletin_skips_malformed_tables by blast
  from parse_bulletin_skips_malformed_tables [of _ ?s "[]" "[?b]"] emp
  obtain rs_pre rs_post rs_post' where
    "parse_bulletin [] = Inr rs_pre"
    "parse_bulletin ([] @ ?s # [?b]) = Inr (rs_pre @ rs_post)"
    "parse_bulletin ([] @ [?b]) = Inr (rs_pre @ rs_post')"
    "map untyped rs_post = map untyped rs_post'"
    by blast
  with 3 have 4: "\<exists>rs rs'. parse_bulletin [?s, ?b] = Inr rs \<and> parse_bulletin [?b] = Inr rs'
      \<and> map untyped rs = map untyped rs'"
    by auto
  from 1 2 3 4 show ?thesis by simp
qed






end
